theory Spec2Isabelle
  imports Complex_Main "HOL-Library.List_Lexorder"
begin

section \<open>Text similarity by TF-IDF and cosine: the program as HOL functions\<close>

text \<open>
  The program (\<^verbatim>\<open>main.py\<close>) reads two documents, normalises them
  (\<^verbatim>\<open>TextProcessor.preprocess\<close>), segments them and removes stopwords
  (\<^verbatim>\<open>TextProcessor.segment\<close>), and scores the two segmented texts
  (\<^verbatim>\<open>SimilarityCalculator.calculate\<close>).

  Conventions of the model:
  \<^item> a Python \<^verbatim>\<open>str\<close> is a list of Unicode code points (\<open>nat list\<close>), because the
    program tests code-point ranges such as U+4E00..U+9FA5;
  \<^item> an exception is a value: results are \<open>error + 'a\<close>, \<open>Inl\<close> the exception;
  \<^item> scores are real numbers. The program computes in 64-bit floating point; rounding
    of floating-point operations is not part of the model;
  \<^item> the library calls of the program (\<^verbatim>\<open>re.sub\<close>, \<^verbatim>\<open>str.strip\<close>,
    \<^verbatim>\<open>TfidfVectorizer().fit_transform\<close>, \<^verbatim>\<open>cosine_similarity\<close>) are modelled by
    their documented behaviour for the arguments the program passes;
  \<^item> \<^verbatim>\<open>jieba.cut\<close> is a parameter \<open>jieba_cut\<close>: any function from a text to its list of
    segments;
  \<^item> the Unicode character tables of the Python runtime beyond ASCII are a parameter
    (\<open>unicode_tables\<close>); the ASCII rows are fixed.
\<close>

subsection \<open>Strings\<close>

type_synonym ustr = "nat list"

text \<open>ASCII literals: \<open>str ''ab''\<close> is the text \<^verbatim>\<open>"ab"\<close>.\<close>

definition str :: "string \<Rightarrow> ustr" where
  "str s = map of_char s"

text \<open>
  Python's whitespace (\<^verbatim>\<open>str.isspace\<close>, the characters \<^verbatim>\<open>str.strip()\<close> removes and
  \<^verbatim>\<open>\s\<close> matches in a \<^verbatim>\<open>str\<close> pattern): U+0009..U+000D, U+001C..U+0020, U+0085,
  U+00A0, U+1680, U+2000..U+200A, U+2028, U+2029, U+202F, U+205F, U+3000.
\<close>

definition isspace :: "nat \<Rightarrow> bool" where
  "isspace c \<longleftrightarrow>
     (9 \<le> c \<and> c \<le> 13) \<or> (28 \<le> c \<and> c \<le> 32) \<or> c = 133 \<or> c = 160 \<or> c = 5760 \<or>
     (8192 \<le> c \<and> c \<le> 8202) \<or> c = 8232 \<or> c = 8233 \<or> c = 8239 \<or> c = 8287 \<or> c = 12288"

text \<open>\<^verbatim>\<open>s.strip()\<close>: leading and trailing whitespace removed.\<close>

definition strip :: "ustr \<Rightarrow> ustr" where
  "strip s = rev (dropWhile isspace (rev (dropWhile isspace s)))"

text \<open>\<^verbatim>\<open>' '.join(words)\<close>.\<close>

fun join :: "ustr list \<Rightarrow> ustr" where
  "join [] = []"
| "join [w] = w"
| "join (w # ws) = w @ 32 # join ws"

subsection \<open>TextProcessor\<close>

text \<open>
  \<^verbatim>\<open>_load_stopwords\<close>: the built-in list, in the order of the source (it repeats some
  words), and the set made of it.
\<close>

definition stopwords_list :: "ustr list" where
  "stopwords_list =
    [[30340], [20102], [22312], [26159], [25105], [26377], [21644], [23601], [19981],
     [20154], [37117], [19968],
     [19968, 20010], [19978], [20063], [24456], [21040], [35828], [35201], [21435],
     [20320], [20250], [30528], [27809, 26377],
     [30475], [22909], [33258, 24049], [36825], [20010], [20197], [20182], [36824],
     [32780], [21518], [20043], [26469],
     [21450], [20110], [20854], [19982], [25152], [23545], [20063], [20294], [24182],
     [25110], [19988], [30528], [20102],
     [36807], [21602], [21527], [21543], [21834], [21568], [21862], [20043], [20046],
     [32773], [20063], [30691], [28937], [21705]]"

definition stopwords :: "ustr set" where
  "stopwords = set stopwords_list"

text \<open>
  \<^verbatim>\<open>re.sub(r'<.*?>', '', text)\<close>: scanning from the left, a \<^verbatim>\<open><\<close> (60) followed, with no
  line feed (10) in between, by a \<^verbatim>\<open>>\<close> (62) is deleted up to the first such \<^verbatim>\<open>>\<close>
  (the dot does not match a line feed); any other character is kept.
\<close>

function sub_tags :: "ustr \<Rightarrow> ustr" where
  "sub_tags [] = []"
| "sub_tags (c # cs) =
     (if c = 60 then
        (case dropWhile (\<lambda>d. d \<noteq> 62 \<and> d \<noteq> 10) cs of
           [] \<Rightarrow> c # sub_tags cs
         | d # rest \<Rightarrow> if d = 62 then sub_tags rest else c # sub_tags cs)
      else c # sub_tags cs)"
  by pat_completeness auto
termination
proof (relation "measure length")
  fix c d :: nat and cs rest :: ustr
  assume "dropWhile (\<lambda>d. d \<noteq> 62 \<and> d \<noteq> 10) cs = d # rest"
  then have "length (d # rest) \<le> length cs"
    by (metis length_dropWhile_le)
  then show "(rest, c # cs) \<in> measure length" by simp
qed auto

text \<open>
  \<^verbatim>\<open>re.sub(r'[^\u4e00-\u9fa5a-zA-Z0-9\s]', '', text)\<close> keeps the characters of the
  class: U+4E00..U+9FA5 (19968..40869), ASCII letters, ASCII digits, whitespace.
\<close>

definition keep_char :: "nat \<Rightarrow> bool" where
  "keep_char c \<longleftrightarrow>
     (19968 \<le> c \<and> c \<le> 40869) \<or> (97 \<le> c \<and> c \<le> 122) \<or> (65 \<le> c \<and> c \<le> 90) \<or>
     (48 \<le> c \<and> c \<le> 57) \<or> isspace c"

text \<open>\<^verbatim>\<open>re.sub(r'\s+', ' ', text)\<close>: every maximal run of whitespace becomes one space (32).\<close>

function sub_spaces :: "ustr \<Rightarrow> ustr" where
  "sub_spaces [] = []"
| "sub_spaces (c # cs) =
     (if isspace c then 32 # sub_spaces (dropWhile isspace cs) else c # sub_spaces cs)"
  by pat_completeness auto
termination
  by (relation "measure length") (auto simp: le_imp_less_Suc length_dropWhile_le)

definition preprocess :: "ustr \<Rightarrow> ustr" where
  "preprocess text = strip (sub_spaces (filter keep_char (sub_tags text)))"

text \<open>
  \<^verbatim>\<open>segment\<close>: the segments of \<open>jieba_cut\<close> that are not stopwords and not blank
  (\<open>filtered_words\<close>), joined by single spaces.
\<close>

definition filtered_words :: "(ustr \<Rightarrow> ustr list) \<Rightarrow> ustr \<Rightarrow> ustr list" where
  "filtered_words jieba_cut text = filter (\<lambda>word. word \<notin> stopwords \<and> strip word \<noteq> []) (jieba_cut text)"

definition segment :: "(ustr \<Rightarrow> ustr list) \<Rightarrow> ustr \<Rightarrow> ustr" where
  "segment jieba_cut text = join (filtered_words jieba_cut text)"

subsection \<open>The Unicode tables of the runtime\<close>

text \<open>
  What the runtime knows of a code point beyond ASCII: whether it is alphanumeric
  (\<^verbatim>\<open>str.isalnum\<close>), its full lower-case mapping, whether it is cased, whether it is
  case-ignorable. The tables are consulted only for code points from 128 on.
\<close>

record unicode_tables =
  alnum :: "nat \<Rightarrow> bool"
  lower_full :: "nat \<Rightarrow> nat list"
  cased :: "nat \<Rightarrow> bool"
  case_ignorable :: "nat \<Rightarrow> bool"

definition ascii_letter :: "nat \<Rightarrow> bool" where
  "ascii_letter c \<longleftrightarrow> (65 \<le> c \<and> c \<le> 90) \<or> (97 \<le> c \<and> c \<le> 122)"

text \<open>\<^verbatim>\<open>\w\<close> in a \<^verbatim>\<open>str\<close> pattern: alphanumeric or the underscore (95).\<close>

definition word_char :: "unicode_tables \<Rightarrow> nat \<Rightarrow> bool" where
  "word_char U c \<longleftrightarrow>
     (if c < 128 then ascii_letter c \<or> (48 \<le> c \<and> c \<le> 57) \<or> c = 95 else alnum U c)"

definition is_cased :: "unicode_tables \<Rightarrow> nat \<Rightarrow> bool" where
  "is_cased U c \<longleftrightarrow> (if c < 128 then ascii_letter c else cased U c)"

text \<open>The case-ignorable ASCII characters are \<^verbatim>\<open>' . : ^ `\<close>.\<close>

definition is_case_ignorable :: "unicode_tables \<Rightarrow> nat \<Rightarrow> bool" where
  "is_case_ignorable U c \<longleftrightarrow>
     (if c < 128 then c = 39 \<or> c = 46 \<or> c = 58 \<or> c = 94 \<or> c = 96 else case_ignorable U c)"

definition to_lower_full :: "unicode_tables \<Rightarrow> nat \<Rightarrow> nat list" where
  "to_lower_full U c =
     (if c < 128 then [if 65 \<le> c \<and> c \<le> 90 then c + 32 else c] else lower_full U c)"

text \<open>
  \<^verbatim>\<open>str.lower()\<close> maps every code point by its full lower-case mapping, but for the
  Greek capital sigma (U+03A3, 931): it becomes the final sigma (962) when a cased
  character precedes it, case-ignorable characters skipped, and no cased character
  follows it, case-ignorable characters skipped; and the small sigma (963) otherwise.
  \<open>seen\<close> holds the characters to the left, nearest first, \<open>rest\<close> those to the right.
\<close>

definition final_sigma :: "unicode_tables \<Rightarrow> ustr \<Rightarrow> ustr \<Rightarrow> bool" where
  "final_sigma U seen rest \<longleftrightarrow>
     (case dropWhile (is_case_ignorable U) seen of [] \<Rightarrow> False | c # _ \<Rightarrow> is_cased U c) \<and>
     (case dropWhile (is_case_ignorable U) rest of [] \<Rightarrow> True | c # _ \<Rightarrow> \<not> is_cased U c)"

fun lower_from :: "unicode_tables \<Rightarrow> ustr \<Rightarrow> ustr \<Rightarrow> ustr" where
  "lower_from U seen [] = []"
| "lower_from U seen (c # cs) =
     (if c = 931 then [if final_sigma U seen cs then 962 else 963] else to_lower_full U c)
     @ lower_from U (c # seen) cs"

definition lower :: "unicode_tables \<Rightarrow> ustr \<Rightarrow> ustr" where
  "lower U s = lower_from U [] s"

subsection \<open>TfidfVectorizer with its default parameters\<close>

text \<open>
  \<^verbatim>\<open>TfidfVectorizer()\<close> has \<^verbatim>\<open>lowercase=True\<close>, \<^verbatim>\<open>token_pattern=r"(?u)\b\w\w+\b"\<close>,
  no stop words, unigrams, \<^verbatim>\<open>norm='l2'\<close>, \<^verbatim>\<open>use_idf=True\<close>, \<^verbatim>\<open>smooth_idf=True\<close>,
  \<^verbatim>\<open>sublinear_tf=False\<close>.

  The token pattern finds the maximal runs of word characters that are at least two
  characters long: \<open>word_runs\<close> are the maximal runs, \<open>tokenize\<close> keeps the long ones.
\<close>

function word_runs :: "unicode_tables \<Rightarrow> ustr \<Rightarrow> ustr list" where
  "word_runs U [] = []"
| "word_runs U (c # cs) =
     (if word_char U c
      then (c # takeWhile (word_char U) cs) # word_runs U (dropWhile (word_char U) cs)
      else word_runs U cs)"
  by pat_completeness auto
termination
  by (relation "measure (\<lambda>(U, s). length s)") (auto simp: le_imp_less_Suc length_dropWhile_le)

definition tokenize :: "unicode_tables \<Rightarrow> ustr \<Rightarrow> ustr list" where
  "tokenize U s = filter (\<lambda>t. 2 \<le> length t) (word_runs U s)"

text \<open>The analyzer of the vectorizer: lower-case the document, then find the tokens.\<close>

definition analyze :: "unicode_tables \<Rightarrow> ustr \<Rightarrow> ustr list" where
  "analyze U doc = tokenize U (lower U doc)"

datatype error = EmptyVocabulary
  \<comment> \<open>\<^verbatim>\<open>ValueError("empty vocabulary; perhaps the documents only contain stop words")\<close>\<close>

text \<open>
  The vocabulary is the sorted list of the distinct tokens of all documents (Python
  compares strings by code points, lexicographically). The number of documents that
  contain a term is its document frequency, and
  \<open>idf = ln ((1 + n) / (1 + df)) + 1\<close> for \<open>n\<close> documents.
\<close>

definition vocabulary :: "ustr list list \<Rightarrow> ustr list" where
  "vocabulary toks = sort (remdups (concat toks))"

definition document_frequency :: "ustr list list \<Rightarrow> ustr \<Rightarrow> nat" where
  "document_frequency toks term = length (filter (\<lambda>t. term \<in> set t) toks)"

definition idf :: "ustr list list \<Rightarrow> ustr \<Rightarrow> real" where
  "idf toks term = ln (real (1 + length toks) / real (1 + document_frequency toks term)) + 1"

text \<open>
  \<^verbatim>\<open>normalize(X, norm='l2')\<close> on one row: the row divided by its Euclidean norm; a row
  of norm zero is left as it is.
\<close>

definition l2_normalize :: "real list \<Rightarrow> real list" where
  "l2_normalize xs =
     (let n = sqrt (sum_list (map (\<lambda>x. x * x) xs))
      in if n = 0 then xs else map (\<lambda>x. x / n) xs)"

text \<open>
  \<^verbatim>\<open>fit_transform\<close>: one row for each document, with a column for each term of the
  vocabulary, holding the count of the term in the document times the term's idf; every
  row normalised. An empty vocabulary raises \<^verbatim>\<open>ValueError\<close>.
\<close>

definition tfidf_row :: "ustr list list \<Rightarrow> ustr list \<Rightarrow> real list" where
  "tfidf_row toks t = map (\<lambda>term. real (count_list t term) * idf toks term) (vocabulary toks)"

definition fit_transform :: "unicode_tables \<Rightarrow> ustr list \<Rightarrow> error + real list list" where
  "fit_transform U raw_documents =
     (let toks = map (analyze U) raw_documents
      in if vocabulary toks = [] then Inl EmptyVocabulary
         else Inr (map (\<lambda>t. l2_normalize (tfidf_row toks t)) toks))"

subsection \<open>SimilarityCalculator\<close>

text \<open>
  \<^verbatim>\<open>cosine_similarity(X, Y)\<close> on two rows: both rows normalised (again), then their dot
  product.
\<close>

definition dot :: "real list \<Rightarrow> real list \<Rightarrow> real" where
  "dot xs ys = sum_list (map2 (*) xs ys)"

definition cosine_similarity :: "real list \<Rightarrow> real list \<Rightarrow> real" where
  "cosine_similarity x y = dot (l2_normalize x) (l2_normalize y)"

text \<open>
  \<^verbatim>\<open>calculate\<close>, lines 80 to 83: the two guards on blank texts, before anything else
  runs. \<open>vectorize_and_compare\<close> stands for the rest of the function (lines 86 to 93).
\<close>

definition calculate_with ::
  "(ustr \<Rightarrow> ustr \<Rightarrow> error + real) \<Rightarrow> ustr \<Rightarrow> ustr \<Rightarrow> error + real" where
  "calculate_with vectorize_and_compare text1 text2 =
     (if strip text1 = [] \<and> strip text2 = [] then Inr 1
      else if strip text1 = [] \<or> strip text2 = [] then Inr 0
      else vectorize_and_compare text1 text2)"

text \<open>Lines 86 to 93: the TF-IDF matrix of the two texts, and the cosine of its two rows.\<close>

definition tfidf_cosine :: "unicode_tables \<Rightarrow> ustr \<Rightarrow> ustr \<Rightarrow> error + real" where
  "tfidf_cosine U text1 text2 =
     (case fit_transform U [text1, text2] of
        Inl e \<Rightarrow> Inl e
      | Inr tfidf_matrix \<Rightarrow> Inr (cosine_similarity (tfidf_matrix ! 0) (tfidf_matrix ! 1)))"

definition calculate :: "unicode_tables \<Rightarrow> ustr \<Rightarrow> ustr \<Rightarrow> error + real" where
  "calculate U = calculate_with (tfidf_cosine U)"

text \<open>
  A concrete table, for evaluating the functions on examples: beyond ASCII only the
  ideographs U+4E00..U+9FA5 are alphanumeric, and nothing there is cased.
\<close>

definition cjk_tables :: unicode_tables where
  "cjk_tables =
     \<lparr>alnum = (\<lambda>c. 19968 \<le> c \<and> c \<le> 40869), lower_full = (\<lambda>c. [c]),
      cased = (\<lambda>c. False), case_ignorable = (\<lambda>c. False)\<rparr>"

subsection \<open>main, from preprocessing to the score\<close>

text \<open>Lines 128 to 145 of \<^verbatim>\<open>main\<close>: both texts preprocessed, segmented, and compared.\<close>

definition score ::
  "(ustr \<Rightarrow> ustr list) \<Rightarrow> unicode_tables \<Rightarrow> ustr \<Rightarrow> ustr \<Rightarrow> error + real" where
  "score jieba_cut U orig_text copy_text =
     calculate U (segment jieba_cut (preprocess orig_text))
                 (segment jieba_cut (preprocess copy_text))"

subsection \<open>Notions used in the statements\<close>

text \<open>
  Two texts differ only in the case of ASCII letters when \<open>map ascii_fold\<close> gives the
  same text for both: \<open>ascii_fold\<close> sends \<^verbatim>\<open>A\<close> to \<^verbatim>\<open>Z\<close> to \<^verbatim>\<open>a\<close> to \<^verbatim>\<open>z\<close> and leaves
  every other code point alone.
\<close>

definition ascii_fold :: "nat \<Rightarrow> nat" where
  "ascii_fold c = (if 65 \<le> c \<and> c \<le> 90 then c + 32 else c)"

text \<open>
  A text is single-spaced when no two whitespace characters are adjacent in it and its
  only whitespace character is the space (32).
\<close>

definition single_spaced :: "ustr \<Rightarrow> bool" where
  "single_spaced s \<longleftrightarrow>
     successively (\<lambda>a b. \<not> (isspace a \<and> isspace b)) s \<and> (\<forall>c\<in>set s. isspace c \<longrightarrow> c = 32)"

subsection \<open>The similarity of the specification\<close>

text \<open>
  The specification describes the score of two token streams \<open>tokenA\<close> and \<open>tokenB\<close>
  in these words: the vocabulary is the set of distinct tokens occurring in either
  document; the term frequency is the raw count of a term within a document; the
  document frequency is the number of documents, of the two, containing the term;
  \<open>weight(term, doc) = tf(term, doc) * idf(term)\<close> with
  \<open>idf(term) = log((1 + N) / (1 + df(term))) + 1\<close> and \<open>N = 2\<close>; each document's vector is
  L2-normalised; the score is the dot product of the two normalised vectors. The
  definitions below follow these words, not the code.
\<close>

definition spec_vocabulary :: "ustr list \<Rightarrow> ustr list \<Rightarrow> ustr set" where
  "spec_vocabulary tokenA tokenB = set tokenA \<union> set tokenB"

definition spec_tf :: "ustr \<Rightarrow> ustr list \<Rightarrow> nat" where
  "spec_tf term doc = count_list doc term"

definition spec_df :: "ustr list \<Rightarrow> ustr list \<Rightarrow> ustr \<Rightarrow> nat" where
  "spec_df tokenA tokenB term =
     (if term \<in> set tokenA then 1 else 0) + (if term \<in> set tokenB then 1 else 0)"

definition spec_idf :: "ustr list \<Rightarrow> ustr list \<Rightarrow> ustr \<Rightarrow> real" where
  "spec_idf tokenA tokenB term = ln ((1 + 2) / (1 + real (spec_df tokenA tokenB term))) + 1"

definition spec_weight :: "ustr list \<Rightarrow> ustr list \<Rightarrow> ustr \<Rightarrow> ustr list \<Rightarrow> real" where
  "spec_weight tokenA tokenB term doc = real (spec_tf term doc) * spec_idf tokenA tokenB term"

definition spec_norm :: "ustr list \<Rightarrow> ustr list \<Rightarrow> ustr list \<Rightarrow> real" where
  "spec_norm tokenA tokenB doc =
     sqrt (\<Sum>term \<in> spec_vocabulary tokenA tokenB. (spec_weight tokenA tokenB term doc)\<^sup>2)"

definition spec_similarity :: "ustr list \<Rightarrow> ustr list \<Rightarrow> real" where
  "spec_similarity tokenA tokenB =
     (\<Sum>term \<in> spec_vocabulary tokenA tokenB.
        (spec_weight tokenA tokenB term tokenA / spec_norm tokenA tokenB tokenA) *
        (spec_weight tokenA tokenB term tokenB / spec_norm tokenA tokenB tokenB))"

section \<open>Properties\<close>

subsection \<open>Blank texts\<close>

lemma dropWhile_all_iff: "(\<forall>x\<in>set (dropWhile P s). P x) \<longleftrightarrow> (\<forall>c\<in>set s. P c)"
  by (induction s) auto

lemma strip_Nil_iff: "strip s = [] \<longleftrightarrow> (\<forall>c\<in>set s. isspace c)"
  by (simp add: strip_def dropWhile_all_iff)

text \<open>
  C2. \<^verbatim>\<open>calculate\<close> returns 1.0 when both texts are empty or whitespace only, and 0.0
  when exactly one of them is. The vectorizer is not reached in these cases: the same
  result comes out whatever stands in for the rest of the function.
\<close>

theorem calculate_blank_inputs:
  "(strip text1 = [] \<and> strip text2 = [] \<longrightarrow>
      calculate U text1 text2 = Inr 1 \<and> (\<forall>vec. calculate_with vec text1 text2 = Inr 1)) \<and>
   ((strip text1 = []) \<noteq> (strip text2 = []) \<longrightarrow>
      calculate U text1 text2 = Inr 0 \<and> (\<forall>vec. calculate_with vec text1 text2 = Inr 0))"
  by (auto simp: calculate_def calculate_with_def)

theorem calculate_blank_inputs_witness:
  "calculate cjk_tables (str ''   '') (str ''   '') = Inr 1 \<and>
   calculate cjk_tables [] [] = Inr 1 \<and>
   calculate cjk_tables [] (str ''non-empty'') = Inr 0 \<and>
   calculate_with (\<lambda>a b. Inl EmptyVocabulary) (str ''non-empty'') (str '' '') = Inr 0"
proof -
  have blank: "strip (str ''   '') = []" "strip [] = []" "strip (str '' '') = []"
    by (simp_all add: strip_Nil_iff str_def isspace_def)
  have nonblank: "strip (str ''non-empty'') \<noteq> []"
    by (simp add: strip_Nil_iff str_def isspace_def)
  show ?thesis
    using calculate_blank_inputs [of "str ''   ''" "str ''   ''" cjk_tables]
      calculate_blank_inputs [of "[]" "[]" cjk_tables]
      calculate_blank_inputs [of "[]" "str ''non-empty''" cjk_tables]
      calculate_blank_inputs [of "str ''non-empty''" "str '' ''" cjk_tables]
      blank nonblank
    by blast
qed

subsection \<open>Texts without a token of two word characters\<close>

lemma analyze_single_letter:
  "analyze U (str ''a'') = []" "analyze U (str ''b'') = []"
  by (simp_all add: analyze_def lower_def str_def tokenize_def to_lower_full_def
      word_char_def ascii_letter_def)

lemma nonblank_single_letter:
  "strip (str ''a'') \<noteq> []" "strip (str ''b'') \<noteq> []"
  by (simp_all add: strip_Nil_iff str_def isspace_def)

text \<open>
  C3. The claim is that \<^verbatim>\<open>calculate\<close> returns a score for every pair of texts that are
  not blank. On the texts \<^verbatim>\<open>"a"\<close> and \<^verbatim>\<open>"b"\<close>, neither blank, the vectorizer finds no
  token, the vocabulary is empty and \<^verbatim>\<open>fit_transform\<close> raises \<^verbatim>\<open>ValueError\<close>.
\<close>

theorem calculate_single_letters_raises:
  "strip (str ''a'') \<noteq> [] \<and> strip (str ''b'') \<noteq> [] \<and>
   calculate U (str ''a'') (str ''b'') = Inl EmptyVocabulary"
proof -
  have "fit_transform U [str ''a'', str ''b''] = Inl EmptyVocabulary"
    by (simp add: fit_transform_def analyze_single_letter vocabulary_def)
  then show ?thesis
    using nonblank_single_letter
    by (simp add: calculate_def calculate_with_def tfidf_cosine_def)
qed

subsection \<open>The token stream of segment\<close>

text \<open>
  C8. Every word that \<^verbatim>\<open>segment\<close> keeps is non-empty, is not blank (stripping leaves
  something, so it is not made of whitespace only) and is not a stopword; and when
  every segment of the text is a stopword, nothing is kept and \<^verbatim>\<open>segment\<close> returns the
  empty text. This holds for every segmentation function.
\<close>

theorem segment_tokens:
  "(\<forall>word \<in> set (filtered_words jieba_cut text).
      word \<noteq> [] \<and> strip word \<noteq> [] \<and> \<not> (\<forall>c\<in>set word. isspace c) \<and> word \<notin> stopwords) \<and>
   (set (jieba_cut text) \<subseteq> stopwords \<longrightarrow>
      filtered_words jieba_cut text = [] \<and> segment jieba_cut text = [])"
proof -
  have "\<forall>word \<in> set (filtered_words jieba_cut text).
      word \<noteq> [] \<and> strip word \<noteq> [] \<and> \<not> (\<forall>c\<in>set word. isspace c) \<and> word \<notin> stopwords"
    by (auto simp: filtered_words_def strip_Nil_iff)
  moreover have "filtered_words jieba_cut text = []" if "set (jieba_cut text) \<subseteq> stopwords"
    using that by (auto simp: filtered_words_def filter_empty_conv)
  ultimately show ?thesis
    by (simp add: segment_def)
qed

text \<open>
  An instance, with every character a segment of its own: of the four segments of the
  first text only \<^verbatim>\<open>a\<close> (97) is kept; the second text is two stopwords.
\<close>

theorem segment_tokens_witness:
  "filtered_words (map (\<lambda>c. [c])) [30340, 32, 97, 20102] = [[97]] \<and>
   strip [97] \<noteq> [] \<and> [97] \<notin> stopwords \<and>
   set (map (\<lambda>c. [c]) [30340, 20102]) \<subseteq> stopwords \<and>
   segment (map (\<lambda>c. [c])) [30340, 20102] = []"
proof -
  have sw: "[30340] \<in> stopwords" "[20102] \<in> stopwords" "[32] \<notin> stopwords" "[97] \<notin> stopwords"
    by (simp_all add: stopwords_def stopwords_list_def)
  have sp: "strip [32] = []" "strip [97] \<noteq> []"
    by (simp_all add: strip_Nil_iff isspace_def)
  have words: "filtered_words (map (\<lambda>c. [c])) [30340, 32, 97, 20102] = [[97]]"
    by (simp add: filtered_words_def sw sp)
  have sub: "set (map (\<lambda>c. [c]) [30340, 20102]) \<subseteq> stopwords"
    by (simp add: sw)
  have "[97] \<in> set (filtered_words (map (\<lambda>c. [c])) [30340, 32, 97, 20102])"
    by (simp only: words list.set insertI1)
  with segment_tokens [of "map (\<lambda>c. [c])" "[30340, 32, 97, 20102]"]
  have kept: "strip [97] \<noteq> [] \<and> [97] \<notin> stopwords"
    by blast
  from segment_tokens [of "map (\<lambda>c. [c])" "[30340, 20102]"] sub
  have "segment (map (\<lambda>c. [c])) [30340, 20102] = []"
    by blast
  with words sub kept show ?thesis
    by blast
qed

subsection \<open>Letter case\<close>

lemma ascii_fold_isspace: "isspace (ascii_fold c) = isspace c"
  by (auto simp: ascii_fold_def isspace_def)

lemma ascii_fold_cased: "is_cased U (ascii_fold c) = is_cased U c"
  by (auto simp: ascii_fold_def is_cased_def ascii_letter_def)

lemma ascii_fold_ignorable: "is_case_ignorable U (ascii_fold c) = is_case_ignorable U c"
  by (auto simp: ascii_fold_def is_case_ignorable_def)

lemma ascii_fold_lower: "to_lower_full U (ascii_fold c) = to_lower_full U c"
  by (auto simp: ascii_fold_def to_lower_full_def)

lemma ascii_fold_sigma: "ascii_fold c = 931 \<longleftrightarrow> c = 931"
  by (auto simp: ascii_fold_def)

lemma dropWhile_map_inv:
  "(\<And>c. P (f c) = P c) \<Longrightarrow> dropWhile P (map f xs) = map f (dropWhile P xs)"
  by (induction xs) auto

lemma final_sigma_fold:
  "final_sigma U (map ascii_fold seen) (map ascii_fold rest) = final_sigma U seen rest"
proof -
  have "(case map ascii_fold xs of [] \<Rightarrow> b | c # _ \<Rightarrow> f (is_cased U c)) =
        (case xs of [] \<Rightarrow> b | c # _ \<Rightarrow> f (is_cased U c))" for xs b and f :: "bool \<Rightarrow> bool"
    by (cases xs) (simp_all add: ascii_fold_cased)
  note * = this
  show ?thesis
    unfolding final_sigma_def
    using * [where xs = "dropWhile (is_case_ignorable U) seen" and b = False and f = "\<lambda>b. b"]
      * [where xs = "dropWhile (is_case_ignorable U) rest" and b = True and f = "\<lambda>b. \<not> b"]
    by (simp add: dropWhile_map_inv ascii_fold_ignorable)
qed

lemma lower_from_fold:
  "lower_from U (map ascii_fold seen) (map ascii_fold s) = lower_from U seen s"
proof (induction s arbitrary: seen)
  case Nil
  show ?case by simp
next
  case (Cons c cs)
  have "lower_from U (map ascii_fold (c # seen)) (map ascii_fold cs) = lower_from U (c # seen) cs"
    by (rule Cons.IH)
  then show ?case
    by (simp add: final_sigma_fold ascii_fold_sigma ascii_fold_lower)
qed


lemma lower_fold: "lower U (map ascii_fold s) = lower U s"
  using lower_from_fold [of U "[]" s] by (simp add: lower_def)

lemma lower_case_variant:
  assumes "map ascii_fold s' = map ascii_fold s"
  shows "lower U s' = lower U s"
  by (metis assms lower_fold)

lemma strip_case_variant:
  assumes "map ascii_fold s' = map ascii_fold s"
  shows "strip s' = [] \<longleftrightarrow> strip s = []"
proof -
  have "strip t = [] \<longleftrightarrow> list_all isspace (map ascii_fold t)" for t
    by (simp add: strip_Nil_iff list_all_iff ascii_fold_isspace)
  then show ?thesis using assms by metis
qed

text \<open>
  C10. The score does not depend on the case of ASCII letters: two pairs of texts that
  differ only in the case of ASCII letters (in any positions, in either direction) get
  the same result from \<^verbatim>\<open>calculate\<close>, because the vectorizer lower-cases each text
  before it looks for tokens, and the guards on blank texts do not look at letters.
\<close>

theorem calculate_case_insensitive:
  assumes "map ascii_fold text1' = map ascii_fold text1"
    and "map ascii_fold text2' = map ascii_fold text2"
  shows "calculate U text1' text2' = calculate U text1 text2"
proof -
  have "analyze U text1' = analyze U text1" "analyze U text2' = analyze U text2"
    by (simp_all only: analyze_def lower_case_variant [OF assms(1)] lower_case_variant [OF assms(2)])
  then have "tfidf_cosine U text1' text2' = tfidf_cosine U text1 text2"
    by (simp only: tfidf_cosine_def fit_transform_def list.map)
  then show ?thesis
    by (simp only: calculate_def calculate_with_def
        strip_case_variant [OF assms(1)] strip_case_variant [OF assms(2)])
qed


theorem calculate_case_insensitive_witness:
  "map ascii_fold (str ''Hello WORLD'') = map ascii_fold (str ''hello world'') \<and>
   map ascii_fold (str ''HELLO there'') = map ascii_fold (str ''hello There'') \<and>
   calculate cjk_tables (str ''Hello WORLD'') (str ''HELLO there'') =
   calculate cjk_tables (str ''hello world'') (str ''hello There'')"
proof -
  have a: "map ascii_fold (str ''Hello WORLD'') = map ascii_fold (str ''hello world'')"
    by (simp add: str_def ascii_fold_def)
  have b: "map ascii_fold (str ''HELLO there'') = map ascii_fold (str ''hello There'')"
    by (simp add: str_def ascii_fold_def)
  from calculate_case_insensitive [OF a b, of cjk_tables] a b show ?thesis
    by blast
qed

subsection \<open>Normalisation\<close>

lemma single_spaced_Nil: "single_spaced []"
  by (simp add: single_spaced_def)

lemma single_spaced_Cons:
  "single_spaced (c # cs) \<longleftrightarrow>
     (isspace c \<longrightarrow> c = 32 \<and> (cs = [] \<or> \<not> isspace (hd cs))) \<and> single_spaced cs"
  by (auto simp: single_spaced_def successively_Cons)

lemma single_spaced_dropWhile: "single_spaced s \<Longrightarrow> single_spaced (dropWhile Q s)"
  by (induction s) (auto simp: single_spaced_Cons)

lemma single_spaced_rev: "single_spaced (rev s) = single_spaced s"
proof -
  have "(\<lambda>x y. \<not> (isspace y \<and> isspace x)) = (\<lambda>a b. \<not> (isspace a \<and> isspace b))"
    by (intro ext) auto
  then show ?thesis
    by (simp only: single_spaced_def successively_rev set_rev)
qed

lemma sub_tags_id: "60 \<notin> set s \<Longrightarrow> sub_tags s = s"
  by (induction s) auto

lemma hd_sub_spaces:
  "s \<noteq> [] \<Longrightarrow> \<not> isspace (hd s) \<Longrightarrow> sub_spaces s \<noteq> [] \<and> hd (sub_spaces s) = hd s"
  by (cases s) auto

lemma sub_spaces_after_run:
  "sub_spaces (dropWhile isspace cs) = [] \<or> \<not> isspace (hd (sub_spaces (dropWhile isspace cs)))"
proof (cases "dropWhile isspace cs = []")
  case True
  then show ?thesis by (metis sub_spaces.simps(1))
next
  case False
  then have "\<not> isspace (hd (dropWhile isspace cs))" by (rule hd_dropWhile)
  with False show ?thesis by (metis hd_sub_spaces)
qed

lemma sub_spaces_single_spaced: "single_spaced (sub_spaces s)"
proof (induction s rule: sub_spaces.induct)
  case 1
  show ?case by (simp add: single_spaced_Nil)
next
  case (2 c cs)
  show ?case
  proof (cases "isspace c")
    case True
    with 2 have "single_spaced (sub_spaces (dropWhile isspace cs))" by simp
    with True show ?thesis
      using sub_spaces_after_run [of cs] by (simp add: single_spaced_Cons)
  next
    case False
    with 2 show ?thesis
      by (simp add: single_spaced_Cons)
  qed
qed

lemma sub_spaces_set:
  "c \<in> set (sub_spaces s) \<Longrightarrow> c = 32 \<or> (c \<in> set s \<and> \<not> isspace c)"
proof (induction s rule: sub_spaces.induct)
  case 1
  then show ?case by simp
next
  case (2 d ds)
  show ?case
  proof (cases "isspace d")
    case True
    with 2 have "c = 32 \<or> c = 32 \<or> (c \<in> set (dropWhile isspace ds) \<and> \<not> isspace c)"
      by auto
    then show ?thesis
      by (auto dest: set_dropWhileD)
  next
    case False
    with 2 show ?thesis by auto
  qed
qed

lemma sub_spaces_id: "single_spaced s \<Longrightarrow> sub_spaces s = s"
proof (induction s)
  case Nil
  show ?case by simp
next
  case (Cons c cs)
  then have IH: "sub_spaces cs = cs"
    by (simp add: single_spaced_Cons)
  show ?case
  proof (cases "isspace c")
    case True
    with Cons.prems have "c = 32" and "cs = [] \<or> \<not> isspace (hd cs)"
      by (simp_all add: single_spaced_Cons)
    then have "dropWhile isspace cs = cs"
      by (simp only: dropWhile_eq_self_iff)
    with True \<open>c = 32\<close> IH show ?thesis by simp
  next
    case False
    with IH show ?thesis by simp
  qed
qed

lemma last_dropWhile: "dropWhile P xs \<noteq> [] \<Longrightarrow> last (dropWhile P xs) = last xs"
  by (metis last_appendR takeWhile_dropWhile_id)

lemma strip_ends:
  "strip s = [] \<or> (\<not> isspace (hd (strip s)) \<and> \<not> isspace (last (strip s)))"
proof (cases "strip s = []")
  case True
  then show ?thesis by simp
next
  case False
  define d where "d = dropWhile isspace s"
  define u where "u = dropWhile isspace (rev d)"
  have s: "strip s = rev u"
    by (simp only: strip_def u_def d_def)
  with False have u: "u \<noteq> []"
    by (metis rev.simps(1))
  then have d: "d \<noteq> []"
    unfolding u_def by (metis dropWhile.simps(1) rev.simps(1))
  have "\<not> isspace (hd u)"
    using u unfolding u_def by (rule hd_dropWhile)
  then have last: "\<not> isspace (last (strip s))"
    using u by (metis s last_rev)
  have "\<not> isspace (hd d)"
    using d unfolding d_def by (rule hd_dropWhile)
  moreover have "last u = last (rev d)"
    using u unfolding u_def by (rule last_dropWhile)
  ultimately have "\<not> isspace (last u)"
    using d by (metis last_rev)
  then have "\<not> isspace (hd (strip s))"
    using u by (metis s hd_rev)
  with last show ?thesis by blast
qed

lemma strip_id:
  assumes "s = [] \<or> (\<not> isspace (hd s) \<and> \<not> isspace (last s))"
  shows "strip s = s"
proof (cases "s = []")
  case True
  then show ?thesis by (simp add: strip_def)
next
  case False
  with assms have "\<not> isspace (hd s)" "\<not> isspace (last s)" by simp_all
  with False have "dropWhile isspace s = s" "dropWhile isspace (rev s) = rev s"
    by (simp_all add: dropWhile_eq_self_iff hd_rev)
  then show ?thesis by (simp add: strip_def)
qed

lemma strip_set: "c \<in> set (strip s) \<Longrightarrow> c \<in> set s"
proof -
  assume "c \<in> set (strip s)"
  then have "c \<in> set (dropWhile isspace (rev (dropWhile isspace s)))"
    by (simp only: strip_def set_rev)
  then have "c \<in> set (rev (dropWhile isspace s))" by (rule set_dropWhileD)
  then have "c \<in> set (dropWhile isspace s)" by (simp only: set_rev)
  then show "c \<in> set s" by (rule set_dropWhileD)
qed

lemma strip_single_spaced: "single_spaced s \<Longrightarrow> single_spaced (strip s)"
  by (simp only: strip_def single_spaced_rev single_spaced_dropWhile)

lemma keep_char_facts: "\<not> keep_char 60" "keep_char 32" "isspace 32"
  by (simp_all add: keep_char_def isspace_def)

lemma preprocess_chars:
  assumes "c \<in> set (preprocess x)"
  shows "keep_char c \<and> c \<noteq> 60 \<and> (isspace c \<longrightarrow> c = 32)"
proof -
  from assms have "c \<in> set (sub_spaces (filter keep_char (sub_tags x)))"
    unfolding preprocess_def by (rule strip_set)
  then have "c = 32 \<or> (c \<in> set (filter keep_char (sub_tags x)) \<and> \<not> isspace c)"
    by (rule sub_spaces_set)
  then have "c = 32 \<or> (keep_char c \<and> \<not> isspace c)"
    by auto
  then show ?thesis
    using keep_char_facts by auto
qed

lemma preprocess_single_spaced: "single_spaced (preprocess x)"
  unfolding preprocess_def by (intro strip_single_spaced sub_spaces_single_spaced)

text \<open>
  C7. \<^verbatim>\<open>preprocess\<close> is idempotent: its result has no \<^verbatim>\<open><\<close>, only characters of the
  kept class, single spaces only, and no space at either end, so a second pass changes
  nothing.
\<close>

theorem preprocess_idempotent: "preprocess (preprocess x) = preprocess x"
proof -
  let ?b = "preprocess x"
  have "60 \<notin> set ?b"
    using preprocess_chars [of 60 x] by auto
  then have tags: "sub_tags ?b = ?b"
    by (rule sub_tags_id)
  have "\<forall>c\<in>set ?b. keep_char c"
    using preprocess_chars [of _ x] by auto
  then have keep: "filter keep_char ?b = ?b"
    by (rule filter_True)
  have spaces: "sub_spaces ?b = ?b"
    by (intro sub_spaces_id preprocess_single_spaced)
  have "strip ?b = ?b"
    unfolding preprocess_def by (intro strip_id strip_ends)
  with tags keep spaces show ?thesis
    by (simp add: preprocess_def)
qed

subsection \<open>Symmetry\<close>


lemma vocabulary_props:
  "sorted (vocabulary toks)" "distinct (vocabulary toks)"
  "set (vocabulary toks) = (\<Union>t\<in>set toks. set t)"
  by (simp_all add: vocabulary_def)

lemma vocabulary_swap: "vocabulary [t1, t2] = vocabulary [t2, t1]"
  by (rule sorted_distinct_set_unique) (auto simp: vocabulary_props)

lemma document_frequency_swap: "document_frequency [t1, t2] term = document_frequency [t2, t1] term"
  by (simp add: document_frequency_def)

lemma idf_swap: "idf [t1, t2] term = idf [t2, t1] term"
  by (simp add: idf_def document_frequency_swap [of t1 t2])

lemma tfidf_row_swap: "tfidf_row [t1, t2] t = tfidf_row [t2, t1] t"
  by (simp add: tfidf_row_def idf_swap [of t1 t2] vocabulary_swap [of t1 t2])

lemma dot_commute: "dot xs ys = dot ys xs"
proof -
  have "map2 (*) xs ys = map2 (*) ys xs"
  proof (induction xs arbitrary: ys)
    case Nil
    show ?case by simp
  next
    case (Cons x xs)
    then show ?case by (cases ys) (simp_all add: mult.commute)
  qed
  then show ?thesis by (simp only: dot_def)
qed

lemma cosine_similarity_commute: "cosine_similarity x y = cosine_similarity y x"
  by (simp only: cosine_similarity_def dot_commute [of "l2_normalize x"])

lemma tfidf_cosine_commute: "tfidf_cosine U text1 text2 = tfidf_cosine U text2 text1"
  by (simp add: tfidf_cosine_def fit_transform_def Let_def
      vocabulary_swap [of "analyze U text1"] tfidf_row_swap [of "analyze U text1"]
      cosine_similarity_commute [of "l2_normalize (tfidf_row [analyze U text2, analyze U text1] (analyze U text1))"])



subsection \<open>The vectorizer and the formula of the specification\<close>

lemma sum_squares_nonneg: "0 \<le> sum_list (map (\<lambda>x. x * x) (xs :: real list))"
  by (rule sum_list_nonneg) auto

lemma sum_list_divide: "sum_list (map (\<lambda>y. y / c) ys) = sum_list ys / (c :: real)"
  by (induction ys) (simp_all add: add_divide_distrib)

lemma l2_normalize_unit:
  assumes "sqrt (sum_list (map (\<lambda>x. x * x) xs)) \<noteq> 0"
  shows "sqrt (sum_list (map (\<lambda>x. x * x) (l2_normalize xs))) = 1"
proof -
  define q where "q = sum_list (map (\<lambda>x. x * x) xs)"
  define n where "n = sqrt q"
  have q: "0 \<le> q" unfolding q_def by (rule sum_squares_nonneg)
  have n: "n \<noteq> 0" using assms by (simp add: n_def q_def)
  have nn: "n * n = q" using q by (simp add: n_def)
  have "map (\<lambda>x. x * x) (map (\<lambda>x. x / n) xs) = map (\<lambda>y. y / (n * n)) (map (\<lambda>x. x * x) xs)"
    by simp
  then have "sum_list (map (\<lambda>x. x * x) (map (\<lambda>x. x / n) xs)) = q / (n * n)"
    by (simp only: q_def sum_list_divide)
  also have "\<dots> = 1" using n by (simp add: nn [symmetric])
  finally have "sum_list (map (\<lambda>x. x * x) (map (\<lambda>x. x / n) xs)) = 1" .
  moreover have "l2_normalize xs = map (\<lambda>x. x / n) xs"
    using n by (simp add: l2_normalize_def n_def q_def)
  ultimately show ?thesis by simp
qed

lemma l2_normalize_idem: "l2_normalize (l2_normalize xs) = l2_normalize xs"
proof (cases "sqrt (sum_list (map (\<lambda>x. x * x) xs)) = 0")
  case True
  then have "l2_normalize xs = xs" by (simp add: l2_normalize_def)
  then show ?thesis by simp
next
  case False
  then have "sqrt (sum_list (map (\<lambda>x. x * x) (l2_normalize xs))) = 1"
    by (rule l2_normalize_unit)
  then show ?thesis
    by (simp add: l2_normalize_def [of "l2_normalize xs"])
qed

lemma cosine_similarity_normalized:
  "cosine_similarity (l2_normalize x) (l2_normalize y) = dot (l2_normalize x) (l2_normalize y)"
  by (simp only: cosine_similarity_def l2_normalize_idem)


lemma document_frequency_pair: "document_frequency [ta, tb] term = spec_df ta tb term"
  by (simp add: document_frequency_def spec_df_def)

lemma idf_pair: "idf [ta, tb] term = spec_idf ta tb term"
  by (simp add: idf_def spec_idf_def document_frequency_pair)

lemma tfidf_row_pair:
  "tfidf_row [ta, tb] t = map (\<lambda>term. spec_weight ta tb term t) (vocabulary [ta, tb])"
  by (simp add: tfidf_row_def spec_weight_def spec_tf_def idf_pair)

lemma vocabulary_pair: "set (vocabulary [ta, tb]) = spec_vocabulary ta tb"
  by (simp add: vocabulary_props spec_vocabulary_def)

lemma sum_vocabulary:
  "sum_list (map f (vocabulary [ta, tb])) = sum f (spec_vocabulary ta tb)"
  by (simp only: sum_list_distinct_conv_sum_set [OF vocabulary_props(2)] vocabulary_pair)

lemma row_norm:
  "sqrt (sum_list (map (\<lambda>x. x * x) (tfidf_row [ta, tb] t))) = spec_norm ta tb t"
proof -
  have "map (\<lambda>x. x * x) (tfidf_row [ta, tb] t) =
        map (\<lambda>term. (spec_weight ta tb term t)\<^sup>2) (vocabulary [ta, tb])"
    by (simp add: tfidf_row_pair power2_eq_square)
  then show ?thesis
    by (simp only: sum_vocabulary spec_norm_def)
qed

lemma spec_idf_ge_1: "1 \<le> spec_idf ta tb term"
proof -
  have "(1::real) \<le> (1 + 2) / (1 + real (spec_df ta tb term))"
    by (simp add: spec_df_def)
  then have "0 \<le> ln ((1 + 2) / (1 + real (spec_df ta tb term)))"
    by (rule ln_ge_zero)
  then show ?thesis by (simp add: spec_idf_def)
qed

lemma spec_weight_nonneg: "0 \<le> spec_weight ta tb term doc"
  using spec_idf_ge_1 [of ta tb "term"] by (simp add: spec_weight_def)

lemma spec_weight_pos:
  assumes "term \<in> set doc"
  shows "0 < spec_weight ta tb term doc"
proof -
  have "count_list doc term \<noteq> 0"
    using assms by (simp add: count_list_0_iff)
  then have "0 < real (count_list doc term)" by simp
  moreover have "0 < spec_idf ta tb term"
    using spec_idf_ge_1 [of ta tb "term"] by simp
  ultimately show ?thesis
    by (simp only: spec_weight_def spec_tf_def mult_pos_pos)
qed

lemma spec_norm_pos:
  assumes "doc \<noteq> []" and "set doc \<subseteq> spec_vocabulary ta tb"
  shows "0 < spec_norm ta tb doc"
proof -
  from assms(1) obtain w where t: "w \<in> set doc" by (cases doc) auto
  have "finite (spec_vocabulary ta tb)" by (simp add: spec_vocabulary_def)
  moreover from t assms(2) have "w \<in> spec_vocabulary ta tb" by auto
  moreover have "0 < (spec_weight ta tb w doc)\<^sup>2"
    using spec_weight_pos [OF t, of ta tb] by simp
  ultimately have "0 < (\<Sum>term \<in> spec_vocabulary ta tb. (spec_weight ta tb term doc)\<^sup>2)"
    by (rule sum_pos2) simp
  then show ?thesis by (simp only: spec_norm_def real_sqrt_gt_zero)
qed

lemma l2_normalize_row:
  assumes "doc \<noteq> []" and "set doc \<subseteq> spec_vocabulary ta tb"
  shows "l2_normalize (tfidf_row [ta, tb] doc) =
         map (\<lambda>term. spec_weight ta tb term doc / spec_norm ta tb doc) (vocabulary [ta, tb])"
proof -
  have "spec_norm ta tb doc \<noteq> 0"
    using spec_norm_pos [OF assms] by simp
  then have "l2_normalize (tfidf_row [ta, tb] doc) =
             map (\<lambda>x. x / spec_norm ta tb doc) (tfidf_row [ta, tb] doc)"
    by (simp add: l2_normalize_def row_norm)
  then show ?thesis by (simp add: tfidf_row_pair)
qed

lemma dot_map: "dot (map f xs) (map g xs) = sum_list (map (\<lambda>x. f x * g x) xs)"
  by (induction xs) (simp_all add: dot_def)

lemma tfidf_cosine_spec:
  assumes "analyze U text1 \<noteq> []" and "analyze U text2 \<noteq> []"
  shows "tfidf_cosine U text1 text2 =
         Inr (spec_similarity (analyze U text1) (analyze U text2))"
proof -
  define ta where "ta = analyze U text1"
  define tb where "tb = analyze U text2"
  have ne: "ta \<noteq> []" "tb \<noteq> []" using assms by (simp_all add: ta_def tb_def)
  have sub: "set ta \<subseteq> spec_vocabulary ta tb" "set tb \<subseteq> spec_vocabulary ta tb"
    by (simp_all add: spec_vocabulary_def)
  have "set (vocabulary [ta, tb]) \<noteq> {}"
    using ne by (simp add: vocabulary_props)
  then have voc: "vocabulary [ta, tb] \<noteq> []" by auto
  have "fit_transform U [text1, text2] =
        Inr [l2_normalize (tfidf_row [ta, tb] ta), l2_normalize (tfidf_row [ta, tb] tb)]"
    using voc by (simp add: fit_transform_def Let_def ta_def tb_def)
  then have "tfidf_cosine U text1 text2 =
        Inr (dot (l2_normalize (tfidf_row [ta, tb] ta)) (l2_normalize (tfidf_row [ta, tb] tb)))"
    by (simp add: tfidf_cosine_def cosine_similarity_normalized)
  also have "dot (l2_normalize (tfidf_row [ta, tb] ta)) (l2_normalize (tfidf_row [ta, tb] tb)) =
        spec_similarity ta tb"
    by (simp only: l2_normalize_row [OF ne(1) sub(1)] l2_normalize_row [OF ne(2) sub(2)]
        dot_map sum_vocabulary spec_similarity_def)
  finally show ?thesis by (simp only: ta_def tb_def)
qed

lemma l2_normalize_zero: "\<forall>x\<in>set xs. x = 0 \<Longrightarrow> l2_normalize xs = xs"
proof -
  assume "\<forall>x\<in>set xs. x = 0"
  then have "sum_list (map (\<lambda>x. x * x) xs) = 0"
    by (induction xs) simp_all
  then show ?thesis by (simp add: l2_normalize_def)
qed

lemma dot_zero: "\<forall>x\<in>set xs. x = 0 \<Longrightarrow> dot xs ys = 0"
proof (induction xs arbitrary: ys)
  case Nil
  show ?case by (simp add: dot_def)
next
  case (Cons x xs)
  then have "dot xs (tl ys) = 0" by simp
  with Cons.prems show ?case by (cases ys) (simp_all add: dot_def)
qed

lemma cosine_similarity_zero: "\<forall>x\<in>set xs. x = 0 \<Longrightarrow> cosine_similarity xs ys = 0"
  by (simp add: cosine_similarity_def l2_normalize_zero dot_zero)

lemma tfidf_cosine_no_terms:
  assumes "analyze U text1 = []" and "analyze U text2 \<noteq> []"
  shows "tfidf_cosine U text1 text2 = Inr 0"
proof -
  define tb where "tb = analyze U text2"
  have "set (vocabulary [[], tb]) \<noteq> {}"
    using assms(2) by (simp add: vocabulary_props tb_def)
  then have voc: "vocabulary [[], tb] \<noteq> []" by auto
  have zero: "\<forall>x\<in>set (l2_normalize (tfidf_row [[], tb] [])). x = 0"
    by (simp add: l2_normalize_zero tfidf_row_def)
  have "fit_transform U [text1, text2] =
        Inr [l2_normalize (tfidf_row [[], tb] []), l2_normalize (tfidf_row [[], tb] tb)]"
    using voc by (simp add: fit_transform_def Let_def assms(1) tb_def)
  then show ?thesis
    using cosine_similarity_zero [OF zero] by (simp add: tfidf_cosine_def)
qed












subsection \<open>What calculate returns, case by case\<close>

text \<open>
  With the formula of the specification in hand: a text compared with a text of the same
  terms gets 1, every score lies between 0 and 1 (in exact arithmetic), and
  \<^verbatim>\<open>ValueError\<close> is raised exactly when both texts are non-blank and neither has a
  term.
\<close>

lemma spec_norm_square:
  "(spec_norm ta tb doc)\<^sup>2 = (\<Sum>term \<in> spec_vocabulary ta tb. (spec_weight ta tb term doc)\<^sup>2)"
  by (simp add: spec_norm_def sum_nonneg)

lemma spec_unit:
  assumes "doc \<noteq> []" and "set doc \<subseteq> spec_vocabulary ta tb"
  shows "(\<Sum>term \<in> spec_vocabulary ta tb. (spec_weight ta tb term doc / spec_norm ta tb doc)\<^sup>2) = 1"
proof -
  have n: "spec_norm ta tb doc \<noteq> 0"
    using spec_norm_pos [OF assms] by simp
  have "(\<Sum>term \<in> spec_vocabulary ta tb. (spec_weight ta tb term doc / spec_norm ta tb doc)\<^sup>2) =
        (\<Sum>term \<in> spec_vocabulary ta tb. (spec_weight ta tb term doc)\<^sup>2) / (spec_norm ta tb doc)\<^sup>2"
    by (simp only: power_divide sum_divide_distrib)
  also have "\<dots> = 1"
    using n by (simp add: spec_norm_square [symmetric])
  finally show ?thesis .
qed

lemma spec_similarity_self:
  assumes "ta \<noteq> []"
  shows "spec_similarity ta ta = 1"
proof -
  have "set ta \<subseteq> spec_vocabulary ta ta" by (simp add: spec_vocabulary_def)
  from spec_unit [OF assms this] show ?thesis
    by (simp add: spec_similarity_def power2_eq_square)
qed

lemma spec_similarity_bounds:
  assumes "ta \<noteq> []" and "tb \<noteq> []"
  shows "0 \<le> spec_similarity ta tb \<and> spec_similarity ta tb \<le> 1"
proof -
  define x where "x w = spec_weight ta tb w ta / spec_norm ta tb ta" for w
  define y where "y w = spec_weight ta tb w tb / spec_norm ta tb tb" for w
  have sub: "set ta \<subseteq> spec_vocabulary ta tb" "set tb \<subseteq> spec_vocabulary ta tb"
    by (simp_all add: spec_vocabulary_def)
  have na: "0 < spec_norm ta tb ta" and nb: "0 < spec_norm ta tb tb"
    using assms sub by (simp_all add: spec_norm_pos)
  have nonneg: "0 \<le> x w * y w" for w
    using na nb spec_weight_nonneg [of ta tb w ta] spec_weight_nonneg [of ta tb w tb]
    by (simp add: x_def y_def)
  have sim: "spec_similarity ta tb = (\<Sum>w \<in> spec_vocabulary ta tb. x w * y w)"
    by (simp only: spec_similarity_def x_def y_def)
  have ux: "(\<Sum>w \<in> spec_vocabulary ta tb. (x w)\<^sup>2) = 1"
    unfolding x_def by (rule spec_unit [OF assms(1) sub(1)])
  have uy: "(\<Sum>w \<in> spec_vocabulary ta tb. (y w)\<^sup>2) = 1"
    unfolding y_def by (rule spec_unit [OF assms(2) sub(2)])
  have "x w * y w \<le> ((x w)\<^sup>2 + (y w)\<^sup>2) / 2" for w
    using sum_squares_bound [of "x w" "y w"] by simp
  then have "(\<Sum>w \<in> spec_vocabulary ta tb. x w * y w) \<le>
             (\<Sum>w \<in> spec_vocabulary ta tb. ((x w)\<^sup>2 + (y w)\<^sup>2) / 2)"
    by (intro sum_mono)
  also have "\<dots> = ((\<Sum>w \<in> spec_vocabulary ta tb. (x w)\<^sup>2) +
                     (\<Sum>w \<in> spec_vocabulary ta tb. (y w)\<^sup>2)) / 2"
    by (simp add: sum_divide_distrib [symmetric] sum.distrib)
  also have "\<dots> = 1" by (simp add: ux uy)
  finally have "spec_similarity ta tb \<le> 1" by (simp only: sim)
  moreover have "0 \<le> spec_similarity ta tb"
    unfolding sim by (intro sum_nonneg nonneg)
  ultimately show ?thesis by simp
qed

lemma tfidf_cosine_empty_vocabulary:
  assumes "analyze U text1 = []" and "analyze U text2 = []"
  shows "tfidf_cosine U text1 text2 = Inl EmptyVocabulary"
  by (simp add: tfidf_cosine_def fit_transform_def assms vocabulary_def)

lemma tfidf_cosine_cases:
  "tfidf_cosine U text1 text2 =
     (if analyze U text1 = [] \<and> analyze U text2 = [] then Inl EmptyVocabulary
      else if analyze U text1 = [] \<or> analyze U text2 = [] then Inr 0
      else Inr (spec_similarity (analyze U text1) (analyze U text2)))"
proof (cases "analyze U text1 = []")
  case a: True
  show ?thesis
  proof (cases "analyze U text2 = []")
    case True
    with a show ?thesis by (simp add: tfidf_cosine_empty_vocabulary)
  next
    case False
    with a show ?thesis by (simp add: tfidf_cosine_no_terms)
  qed
next
  case a: False
  show ?thesis
  proof (cases "analyze U text2 = []")
    case True
    with a have "tfidf_cosine U text2 text1 = Inr 0" by (simp add: tfidf_cosine_no_terms)
    with a True show ?thesis by (simp add: tfidf_cosine_commute [of U text1])
  next
    case False
    with a show ?thesis by (simp add: tfidf_cosine_spec)
  qed
qed

lemma calculate_raises_iff:
  "calculate U text1 text2 = Inl e \<longleftrightarrow>
     strip text1 \<noteq> [] \<and> strip text2 \<noteq> [] \<and> analyze U text1 = [] \<and> analyze U text2 = []"
  by (cases e) (simp add: calculate_def calculate_with_def tfidf_cosine_cases)

lemma calculate_score_bounds:
  assumes "calculate U text1 text2 = Inr s"
  shows "0 \<le> s \<and> s \<le> 1"
  using assms spec_similarity_bounds [of "analyze U text1" "analyze U text2"]
  by (auto simp: calculate_def calculate_with_def tfidf_cosine_cases split: if_splits)

lemma calculate_self:
  assumes "analyze U text \<noteq> [] \<or> strip text = []"
  shows "calculate U text text = Inr 1"
  using assms spec_similarity_self [of "analyze U text"]
  by (auto simp: calculate_def calculate_with_def tfidf_cosine_cases)

subsection \<open>Texts made of single characters\<close>

lemma preprocess_single_letter: "preprocess (str ''a'') = str ''a''"
  by (simp add: preprocess_def str_def keep_char_def isspace_def strip_def)

lemma segment_single_letter:
  assumes "jieba_cut (str ''a'') = [str ''a'']"
  shows "segment jieba_cut (str ''a'') = str ''a''"
proof -
  have "str ''a'' \<notin> stopwords"
    by (simp add: str_def stopwords_def stopwords_list_def)
  then show ?thesis
    using nonblank_single_letter(1) by (simp add: segment_def filtered_words_def assms)
qed

text \<open>
  C4. The claim is that a non-blank text compared with itself scores about 1.0. For
  the text \<^verbatim>\<open>"a"\<close>, which \<^verbatim>\<open>preprocess\<close> leaves as it is and which is its own single
  segment, the run from preprocessing to the score raises \<^verbatim>\<open>ValueError\<close> instead
  (\<open>calculate_self\<close> above gives the score 1 whenever the text has a term).
\<close>

theorem score_self_single_letter_raises:
  assumes "jieba_cut (str ''a'') = [str ''a'']"
  shows "strip (str ''a'') \<noteq> [] \<and>
         score jieba_cut U (str ''a'') (str ''a'') = Inl EmptyVocabulary"
proof -
  have "calculate U (str ''a'') (str ''a'') = Inl EmptyVocabulary"
    by (simp only: calculate_raises_iff nonblank_single_letter analyze_single_letter simp_thms)
  then show ?thesis
    using nonblank_single_letter(1)
    by (simp only: score_def preprocess_single_letter segment_single_letter [of jieba_cut, OF assms] simp_thms)
qed

theorem score_self_single_letter_raises_witness:
  "map (\<lambda>c. [c]) (str ''a'') = [str ''a''] \<and> strip (str ''a'') \<noteq> [] \<and>
   score (map (\<lambda>c. [c])) cjk_tables (str ''a'') (str ''a'') = Inl EmptyVocabulary"
proof -
  have cut: "map (\<lambda>c. [c]) (str ''a'') = [str ''a'']"
    by (simp add: str_def)
  from score_self_single_letter_raises [of "map (\<lambda>c. [c])", OF cut, of cjk_tables] cut
  show ?thesis by blast
qed

lemma analyze_no_terms_examples:
  "analyze U (str ''x'') = []" "analyze U (str ''y z'') = []"
  by (simp_all add: analyze_def lower_def str_def tokenize_def to_lower_full_def
      word_char_def ascii_letter_def)

text \<open>
  C5. The claim is that every pair of texts has a score between 0.0 and 1.0. The texts
  \<^verbatim>\<open>"x"\<close> and \<^verbatim>\<open>"y z"\<close> have none: \<^verbatim>\<open>calculate\<close> raises \<^verbatim>\<open>ValueError\<close>
  (\<open>calculate_score_bounds\<close> above gives the bounds for every score that is returned).
\<close>

theorem calculate_no_score_within_bounds:
  "strip (str ''x'') \<noteq> [] \<and> strip (str ''y z'') \<noteq> [] \<and>
   calculate U (str ''x'') (str ''y z'') = Inl EmptyVocabulary \<and>
   \<not> (\<exists>s. calculate U (str ''x'') (str ''y z'') = Inr s \<and> 0 \<le> s \<and> s \<le> 1)"
proof -
  have nonblank: "strip (str ''x'') \<noteq> []" "strip (str ''y z'') \<noteq> []"
    by (simp_all add: strip_Nil_iff str_def isspace_def)
  then have "calculate U (str ''x'') (str ''y z'') = Inl EmptyVocabulary"
    by (simp only: calculate_raises_iff analyze_no_terms_examples simp_thms)
  with nonblank show ?thesis by simp
qed

end
